theory Spec2Isabelle
  imports Complex_Main "HOL-Library.Log_Nat"
begin

text \<open>
  A model of the micro-benchmark module \<open>smolbench\<close>: the rounder \<open>round\<close>, the
  single-trial runner \<open>run1\<close>, the engine \<open>benchFancy\<close> with its plain form \<open>bench\<close>, and
  the report store with \<open>saveReportsSync\<close> and \<open>reportTable\<close>. The module comes in two
  states: the file with \<open>run1\<close> and \<open>benchFancy\<close>, which the sections below follow, and
  \<open>src/index.ts\<close>, an earlier state whose stand-alone \<open>bench\<close> is modelled in a section of
  its own. The definitions come first, the properties after them.
\<close>

section \<open>JavaScript numbers\<close>

text \<open>
  A JavaScript \<open>number\<close> is modelled as a rational or one of the three special values
  \<open>Infinity\<close>, \<open>-Infinity\<close> and \<open>NaN\<close>. The rounder, whose whole purpose is the value of
  a product and a quotient of doubles, rounds the result of each operation to the nearest
  double (section Doubles). The engine's sums, differences and quotients of clock
  readings are exact. The sign of zero is left out (every zero divisor that arises in
  the program is a positive zero).
\<close>

datatype jsnum = Fin rat | PInf | NInf | NaN

text \<open>\<open>a < b\<close>: false whenever an operand is \<open>NaN\<close>.\<close>

fun js_lt :: "jsnum \<Rightarrow> jsnum \<Rightarrow> bool" where
  "js_lt NaN _ = False"
| "js_lt _ NaN = False"
| "js_lt (Fin a) (Fin b) = (a < b)"
| "js_lt (Fin a) PInf = True"
| "js_lt (Fin a) NInf = False"
| "js_lt PInf _ = False"
| "js_lt NInf NInf = False"
| "js_lt NInf _ = True"

text \<open>\<open>a / b\<close>, with the division by zero of IEEE arithmetic written out.\<close>

fun js_div :: "jsnum \<Rightarrow> jsnum \<Rightarrow> jsnum" where
  "js_div NaN _ = NaN"
| "js_div _ NaN = NaN"
| "js_div (Fin a) (Fin b) =
     (if b \<noteq> 0 then Fin (a / b)
      else if a = 0 then NaN
      else if 0 < a then PInf else NInf)"
| "js_div (Fin a) PInf = Fin 0"
| "js_div (Fin a) NInf = Fin 0"
| "js_div PInf (Fin b) = (if 0 \<le> b then PInf else NInf)"
| "js_div NInf (Fin b) = (if 0 \<le> b then NInf else PInf)"
| "js_div PInf _ = NaN"
| "js_div NInf _ = NaN"

text \<open>\<open>Math.floor\<close>, \<open>Math.round\<close> (halves go up) and \<open>Math.max\<close> of two arguments.\<close>

fun Math_floor :: "jsnum \<Rightarrow> jsnum" where
  "Math_floor (Fin a) = Fin (of_int \<lfloor>a\<rfloor>)"
| "Math_floor x = x"

fun Math_round :: "jsnum \<Rightarrow> jsnum" where
  "Math_round (Fin a) = Fin (of_int \<lfloor>a + 1 / 2\<rfloor>)"
| "Math_round x = x"

fun Math_max :: "jsnum \<Rightarrow> jsnum \<Rightarrow> jsnum" where
  "Math_max NaN _ = NaN"
| "Math_max _ NaN = NaN"
| "Math_max PInf _ = PInf"
| "Math_max _ PInf = PInf"
| "Math_max NInf b = b"
| "Math_max a NInf = a"
| "Math_max (Fin a) (Fin b) = Fin (max a b)"

section \<open>Doubles\<close>

text \<open>
  The result of an arithmetic operation on doubles is the exact result rounded to the
  nearest double, ties going to the even significand. \<open>binade x\<close> is the exponent \<open>e\<close>
  with \<open>2 ^ e \<le> x < 2 ^ (e + 1)\<close> for a positive \<open>x\<close>; the doubles of that binade are the
  multiples of \<open>2 ^ (e - 52)\<close>, those below \<open>2 ^ -1022\<close> the multiples of \<open>2 ^ -1074\<close>. A
  result that rounds to \<open>2 ^ 1024\<close> or beyond is an infinity.
\<close>

definition round_half_even :: "rat \<Rightarrow> int" where
  "round_half_even z =
     (let f = \<lfloor>z\<rfloor>; r = z - of_int f
      in if r < 1 / 2 then f else if 1 / 2 < r then f + 1 else if even f then f else f + 1)"

definition binade :: "rat \<Rightarrow> int" where
  "binade x =
     (case quotient_of x of
        (a, b) \<Rightarrow> let e = bitlen a - bitlen b in if power_int 2 e \<le> x then e else e - 1)"

definition nearest :: "rat \<Rightarrow> rat" where
  "nearest x =
     (let e = max (binade x) (- 1022);
          ulp = power_int 2 (e - 52)
      in of_int (round_half_even (x / ulp)) * ulp)"

definition to_double :: "rat \<Rightarrow> jsnum" where
  "to_double x =
     (if x = 0 then Fin 0
      else
        let y = nearest \<bar>x\<bar>
        in if 2 ^ 1024 \<le> y then (if 0 < x then PInf else NInf)
           else Fin (if 0 < x then y else - y))"

text \<open>The rounding applied to the result of an operation.\<close>

fun fl :: "jsnum \<Rightarrow> jsnum" where
  "fl (Fin x) = to_double x"
| "fl x = x"

text \<open>
  \<open>a * m\<close> for a finite positive factor \<open>m\<close> (the power of ten of \<open>roundDigits\<close>), as a
  double.
\<close>

fun js_scale :: "jsnum \<Rightarrow> rat \<Rightarrow> jsnum" where
  "js_scale (Fin a) m = to_double (a * m)"
| "js_scale PInf m = PInf"
| "js_scale NInf m = NInf"
| "js_scale NaN m = NaN"

section \<open>The rounder\<close>

text \<open>
  \<^verbatim>\<open>const roundDigits = (n, digits) => { const m = Math.pow(10, digits);
                                       return Math.round(n * m) / m }\<close>
  The product and the quotient are operations on doubles and are rounded as such;
  \<open>Math.round\<close> of a double is a whole number that is itself a double. The rounder calls
  \<open>roundDigits\<close> with 1, 2 and 3 digits, for which the power of ten is exact.
\<close>

definition roundDigits :: "jsnum \<Rightarrow> nat \<Rightarrow> jsnum" where
  "roundDigits n digits =
     (let m = 10 ^ digits in fl (js_div (Math_round (js_scale n m)) (Fin m)))"

text \<open>
  \<^verbatim>\<open>const round = (n) => (n < 1 ? roundDigits(n, 3) : n < 10 ? roundDigits(n, 2)
                            : n < 100 ? roundDigits(n, 1) : Math.round(n))\<close>
  (named \<open>round_js\<close>: \<open>round\<close> is a constant of HOL).
\<close>

definition round_js :: "jsnum \<Rightarrow> jsnum" where
  "round_js n =
     (if js_lt n (Fin 1) then roundDigits n 3
      else if js_lt n (Fin 10) then roundDigits n 2
      else if js_lt n (Fin 100) then roundDigits n 1
      else Math_round n)"

section \<open>Options, reports and the report store\<close>

text \<open>
  \<^verbatim>\<open>interface BenchOpts { warmupTime: number, testTime: number, samples: number,
                        name?: string, quiet: boolean }\<close>
\<close>

record BenchOpts =
  warmupTime :: jsnum
  testTime :: jsnum
  samples :: jsnum
  name :: "string option"
  quiet :: bool

definition defaultOpts :: BenchOpts where
  "defaultOpts =
     \<lparr>warmupTime = Fin 3000, testTime = Fin 10000, samples = Fin 100, name = None, quiet = False\<rparr>"

text \<open>
  \<^verbatim>\<open>interface BenchmarkReport { meanTime: number, options: BenchOpts, sampleTimes: number[] }\<close>
  Every sample time is a difference of two clock readings, hence finite.
\<close>

record BenchmarkReport =
  meanTime :: jsnum
  options :: BenchOpts
  sampleTimes :: "rat list"

text \<open>
  \<^verbatim>\<open>export const reports: Record<string, BenchmarkReport> = {}\<close>
  The store is modelled by its content per name; the order in which a JavaScript object
  enumerates its keys is left out.
\<close>

type_synonym store = "string \<rightharpoonup> BenchmarkReport"

text \<open>The first argument of the engine: \<open>BenchOpts | string\<close>, and the \<open>null\<close> the code tests for.\<close>

datatype options_arg = Null | Name string | Opts BenchOpts

text \<open>
  \<^verbatim>\<open>const opts = options == null ? defaultOpts
      : typeof options === 'string' ? { ...defaultOpts, name: options }
      : { ...defaultOpts, ...options }\<close>
  An object of type \<open>BenchOpts\<close> has every field but perhaps \<open>name\<close>, so the last spread
  takes every field from \<open>options\<close>, and \<open>name\<close> from the defaults when it is absent.
\<close>

fun resolve_opts :: "options_arg \<Rightarrow> BenchOpts" where
  "resolve_opts Null = defaultOpts"
| "resolve_opts (Name s) = defaultOpts\<lparr>name := Some s\<rparr>"
| "resolve_opts (Opts given) =
     \<lparr>warmupTime = warmupTime given, testTime = testTime given, samples = samples given,
      name = (case name given of None \<Rightarrow> name defaultOpts | Some s \<Rightarrow> Some s),
      quiet = quiet given\<rparr>"

section \<open>Workloads and the clock\<close>

text \<open>
  The world a workload runs in: the reading \<open>performance.now()\<close> would return, and
  whatever else the workload can touch. The clock is moved by the workloads alone, in any
  way they like; the steps of the engine itself take no time. The report store is not
  part of the world (the engine is not re-entered from a workload). A plain workload
  \<open>fn: () => void\<close> is a transformer of the world; it returns normally.
\<close>

record 'u world =
  clock :: rat
  heap :: 'u

type_synonym 'u plain = "'u world \<Rightarrow> 'u world"

text \<open>
  A fancy workload \<open>fn: (bench: (f: () => void) => void) => void\<close> is modelled by what it
  does with the callback it is given: it runs code that takes no part in a call of the
  callback and then either returns (\<open>Done\<close>, with the world it leaves) or calls the
  callback on some \<open>f\<close> (\<open>Call\<close>, with the world at the call and what \<open>f\<close> does from
  there) and carries on from the world the callback returns in. The measured \<open>f\<close> is
  code of the same kind: it has the callback in scope and may call it again, so what it
  does is a trace too; an \<open>f\<close> that makes no such call is \<open>Done\<close> of the world it leaves.
  The callback may be called any number of times, and what is done may depend on the
  world. Workloads return normally.
\<close>

datatype 'u trace =
  Done "'u world"
| Call "'u world" "'u trace" "'u world \<Rightarrow> 'u trace"

type_synonym 'u FancyFn = "'u world \<Rightarrow> 'u trace"

section \<open>Errors\<close>

text \<open>
  \<open>Error msg\<close> is \<open>Error(msg)\<close>; \<open>SyntaxError\<close> is what \<open>JSON.parse\<close> throws;
  \<open>SystemError c\<close> is a failure of \<open>fs.readFileSync\<close> whose \<open>code\<close> is \<open>c\<close>.
\<close>

datatype error = Error string | SyntaxError | SystemError string

text \<open>\<open>e.code\<close>: only the errors of the file system have one.\<close>

fun code :: "error \<Rightarrow> string option" where
  "code (SystemError c) = Some c"
| "code _ = None"

section \<open>The single-trial runner\<close>

text \<open>
  \<^verbatim>\<open>function run1(fn: FancyFn): number {
    let start = 0, end = 0, run = false
    fn((f) => { start = performance.now(); f(); end = performance.now(); run = true })
    if (!run) throw Error('Benchmark must run iteration function')
    return end - start
  }\<close>
  The three local variables form a frame. A call of the callback writes \<open>start\<close>, runs
  \<open>f\<close> (which may call the callback, on the same frame) and then writes \<open>end\<close> and \<open>run\<close>.
\<close>

record frame =
  start :: rat
  end' :: rat
  run :: bool

primrec call_fn :: "'u trace \<Rightarrow> frame \<Rightarrow> 'u world \<times> frame" where
  "call_fn (Done w) fr = (w, fr)"
| "call_fn (Call w f k) fr =
     (case call_fn f (fr\<lparr>start := clock w\<rparr>) of
        (w', fr') \<Rightarrow> call_fn (k w') (fr'\<lparr>end' := clock w', run := True\<rparr>))"

definition run1 :: "'u FancyFn \<Rightarrow> 'u world \<Rightarrow> error \<times> 'u world + rat \<times> 'u world" where
  "run1 fn w =
     (case call_fn (fn w) \<lparr>start = 0, end' = 0, run = False\<rparr> of
        (w', fr) \<Rightarrow>
          if \<not> run fr then Inl (Error ''Benchmark must run iteration function'', w')
          else Inr (end' fr - start fr, w'))"

section \<open>The benchmark engine\<close>

text \<open>
  \<^verbatim>\<open>let warmupCount = 0
  let warmupTime = 0
  do {
    warmupTime += run1(fn)
    warmupCount++
  } while (warmupCount < 4 || warmupTime < opts.warmupTime)\<close>
  The loop need not end, so its result is an option: \<open>None\<close> when it runs forever. The
  accumulated time is \<open>warmupTotal\<close> here (\<open>warmupTime\<close> names the option).
\<close>

partial_function (option) warmup_loop ::
  "'u FancyFn \<Rightarrow> jsnum \<Rightarrow> nat \<Rightarrow> rat \<Rightarrow> 'u world \<Rightarrow>
     (error \<times> 'u world + nat \<times> rat \<times> 'u world) option" where
  "warmup_loop fn limit warmupCount warmupTotal w =
     (case run1 fn w of
        Inl err \<Rightarrow> Some (Inl err)
      | Inr (t, w') \<Rightarrow>
          if warmupCount + 1 < 4 \<or> js_lt (Fin (warmupTotal + t)) limit
          then warmup_loop fn limit (warmupCount + 1) (warmupTotal + t) w'
          else Some (Inr (warmupCount + 1, warmupTotal + t, w')))"

text \<open>
  \<^verbatim>\<open>const samples = Math.max(opts.samples, Math.floor(opts.testTime / timePerIteration))\<close>
\<close>

definition sample_count :: "BenchOpts \<Rightarrow> jsnum \<Rightarrow> jsnum" where
  "sample_count opts timePerIteration =
     Math_max (samples opts) (Math_floor (js_div (testTime opts) timePerIteration))"

text \<open>
  \<^verbatim>\<open>const sampleTimes = []
  let totalTime = 0
  for (let i = 0; i < samples; i++) {
    const time = run1(fn)
    totalTime += time
    sampleTimes.push(time)
  }\<close>
  The array being filled is \<open>collected\<close> here (\<open>sampleTimes\<close> names the report's field).
\<close>

partial_function (option) sample_loop ::
  "'u FancyFn \<Rightarrow> jsnum \<Rightarrow> nat \<Rightarrow> rat \<Rightarrow> rat list \<Rightarrow> 'u world \<Rightarrow>
     (error \<times> 'u world + rat \<times> rat list \<times> 'u world) option" where
  "sample_loop fn n i totalTime collected w =
     (if js_lt (Fin (of_nat i)) n
      then (case run1 fn w of
              Inl err \<Rightarrow> Some (Inl err)
            | Inr (time, w') \<Rightarrow> sample_loop fn n (i + 1) (totalTime + time) (collected @ [time]) w')
      else Some (Inr (totalTime, collected, w)))"

text \<open>
  \<^verbatim>\<open>export function benchFancy(options: BenchOpts | string, fn: FancyFn) {
    const opts = ...
    (the warmup loop)
    let timePerIteration = warmupTime / warmupCount
    const samples = Math.max(opts.samples, Math.floor(opts.testTime / timePerIteration))
    (the sampling loop)
    timePerIteration = totalTime / samples
    if (opts.name != null) {
      reports[opts.name] = { sampleTimes, meanTime: timePerIteration, options: opts }
    }
  }\<close>
  The result is \<open>None\<close> when a loop runs forever, \<open>Some (Inl (e, w, reports))\<close> when \<open>e\<close>
  was thrown (with the world and the store as they are then), \<open>Some (Inr (w, reports))\<close>
  when it returns. The sample count is \<open>n\<close> here (\<open>samples\<close> names the option). The
  messages written with \<open>console.warn\<close> are left out.
\<close>

definition benchFancy ::
  "options_arg \<Rightarrow> 'u FancyFn \<Rightarrow> 'u world \<times> store \<Rightarrow>
     (error \<times> 'u world \<times> store + 'u world \<times> store) option" where
  "benchFancy arg fn = (\<lambda>(w, reports).
     let opts = resolve_opts arg in
     case warmup_loop fn (warmupTime opts) 0 0 w of
       None \<Rightarrow> None
     | Some (Inl (err, w1)) \<Rightarrow> Some (Inl (err, w1, reports))
     | Some (Inr (warmupCount, warmupTotal, w1)) \<Rightarrow>
         let timePerIteration = js_div (Fin warmupTotal) (Fin (of_nat warmupCount));
             n = sample_count opts timePerIteration
         in case sample_loop fn n 0 0 [] w1 of
              None \<Rightarrow> None
            | Some (Inl (err, w2)) \<Rightarrow> Some (Inl (err, w2, reports))
            | Some (Inr (totalTime, collected, w2)) \<Rightarrow>
                let timePerIteration = js_div (Fin totalTime) n
                in Some (Inr (w2,
                     case name opts of
                       None \<Rightarrow> reports
                     | Some s \<Rightarrow> reports(s \<mapsto>
                         \<lparr>meanTime = timePerIteration, options = opts, sampleTimes = collected\<rparr>))))"

text \<open>
  \<^verbatim>\<open>export function bench(options: BenchOpts | string, fn: () => void) {
    benchFancy(options, b => { b(fn) })
  }\<close>
\<close>

definition bench ::
  "options_arg \<Rightarrow> 'u plain \<Rightarrow> 'u world \<times> store \<Rightarrow>
     (error \<times> 'u world \<times> store + 'u world \<times> store) option" where
  "bench arg fn = benchFancy arg (\<lambda>w. Call w (Done (fn w)) Done)"

section \<open>Persistence and the table\<close>

text \<open>
  What \<open>JSON.parse\<close> can return. The entries of an object or an array are taken to be
  reports, as the declared type of the store says; the code does not look at them.
\<close>

datatype json =
  JNull
| JBool bool
| JNumber rat
| JString string
| JArray "BenchmarkReport list"
| JObject "string \<rightharpoonup> BenchmarkReport"

text \<open>
  What \<open>JSON.parse(fs.readFileSync(filename, 'utf8'))\<close> does for a file: the read fails
  with an error code (\<open>ENOENT\<close> when there is no such file), or the text does not parse,
  or it parses to a value. A written file is given by the value that was serialised.
\<close>

datatype disk_file = ReadFails string | Unparsable | Parsed json

type_synonym files = "string \<Rightarrow> disk_file"

fun typeof :: "json \<Rightarrow> string" where
  "typeof JNull = ''object''"
| "typeof (JBool b) = ''boolean''"
| "typeof (JNumber x) = ''number''"
| "typeof (JString s) = ''string''"
| "typeof (JArray xs) = ''object''"
| "typeof (JObject m) = ''object''"

text \<open>The decimal numeral of an array index, the key under which a spread copies an element.\<close>

definition digit :: "nat \<Rightarrow> char" where
  "digit n = ''0123456789'' ! n"

fun index_key :: "nat \<Rightarrow> string" where
  "index_key n = (if n < 10 then [digit n] else index_key (n div 10) @ [digit (n mod 10)])"

text \<open>
  The own enumerable properties that \<open>{...v}\<close> copies. (\<open>null\<close> and the primitive values
  are rejected before any spread; the index properties of a string are characters.)
\<close>

fun own_props :: "json \<Rightarrow> (string \<rightharpoonup> BenchmarkReport)" where
  "own_props (JObject m) = m"
| "own_props (JArray xs) = map_of (zip (map index_key [0..<length xs]) xs)"
| "own_props _ = Map.empty"

text \<open>
  \<^verbatim>\<open>JSON.parse(fs.readFileSync(filename, 'utf8'))\<close> followed by
  \<^verbatim>\<open>if (typeof x !== 'object' || x == null) throw Error('Report file is not an object')\<close>,
  the sequence both \<open>saveReportsSync\<close> and \<open>reportTable\<close> run.
\<close>

definition read_object :: "files \<Rightarrow> string \<Rightarrow> error + json" where
  "read_object fs filename =
     (case fs filename of
        ReadFails c \<Rightarrow> Inl (SystemError c)
      | Unparsable \<Rightarrow> Inl SyntaxError
      | Parsed x \<Rightarrow>
          if typeof x \<noteq> ''object'' \<or> x = JNull then Inl (Error ''Report file is not an object'')
          else Inr x)"

text \<open>
  \<^verbatim>\<open>export function saveReportsSync(filename = 'report.json') {
    let currentReports = {}
    try {
      currentReports = JSON.parse(fs.readFileSync(filename, 'utf8'))
      if (typeof currentReports !== 'object' || currentReports == null) {
        throw Error('Report file is not an object')
      }
    } catch (e: any) {
      if (e.code !== 'ENOENT') { console.error(...); throw e }
    }
    const merged = {...currentReports, ...reports}
    fs.writeFileSync(filename, JSON.stringify(merged, null, 2))
  }\<close>
  The result is the error thrown, or the files after the write. The write itself is
  taken to succeed; the messages on the console are left out.
\<close>

definition saveReportsSync :: "string option \<Rightarrow> files \<times> store \<Rightarrow> error + files" where
  "saveReportsSync arg = (\<lambda>(fs, reports).
     let filename = (case arg of None \<Rightarrow> ''report.json'' | Some f \<Rightarrow> f) in
     case (case read_object fs filename of
             Inr x \<Rightarrow> Inr (own_props x)
           | Inl e \<Rightarrow> if code e \<noteq> Some ''ENOENT'' then Inl e else Inr Map.empty) of
       Inl e \<Rightarrow> Inl e
     | Inr currentReports \<Rightarrow>
         let merged = currentReports ++ reports
         in Inr (fs(filename := Parsed (JObject merged))))"

text \<open>
  \<^verbatim>\<open>export function reportTable(filename?: string) {
    let r = { ...reports }
    if (filename != null) {
      const fileReports = JSON.parse(fs.readFileSync(filename, 'utf8'))
      if (typeof fileReports !== 'object' || fileReports == null) {
        throw Error('Report file is not an object')
      }
      r = {...r, ...fileReports}
    }
    const tableData: Record<string, any> = {}
    for (const name in r) { tableData[name] = {mean: round(r[name].meanTime)} }
    console.table(tableData)
  }\<close>
  The result is the error thrown, or the table handed to \<open>console.table\<close>.
\<close>

record row =
  mean :: jsnum

definition reportTable :: "string option \<Rightarrow> files \<times> store \<Rightarrow> error + (string \<rightharpoonup> row)" where
  "reportTable arg = (\<lambda>(fs, reports).
     case (case arg of
             None \<Rightarrow> Inr reports
           | Some filename \<Rightarrow>
               (case read_object fs filename of
                  Inl e \<Rightarrow> Inl e
                | Inr fileReports \<Rightarrow> Inr (reports ++ own_props fileReports))) of
       Inl e \<Rightarrow> Inl e
     | Inr r \<Rightarrow> Inr (\<lambda>k. map_option (\<lambda>rep. \<lparr>mean = round_js (meanTime rep)\<rparr>) (r k)))"

section \<open>The earlier engine of src/index.ts\<close>

text \<open>
  The file \<open>src/index.ts\<close> is an earlier state of the same module (the lines commented
  out in \<open>benchFancy\<close> are its code): its \<open>round\<close>, \<open>roundDigits\<close>, \<open>defaultOpts\<close>,
  \<open>saveReportsSync\<close> and the expression for the sample count are the ones above, word for
  word; it has no \<open>run1\<close>, \<open>benchFancy\<close> or \<open>reportTable\<close>, and its report has no
  \<open>sampleTimes\<close>. Its \<open>bench\<close> (here \<open>bench_index\<close>) times each phase with two clock
  readings:
  \<^verbatim>\<open>let start = performance.now()
  let end
  let warmupCount = 0
  do { fn(); warmupCount++; end = performance.now() } while (end - start < opts.warmupTime)
  let timePerIteration = (end - start) / warmupCount
  const samples = Math.max(opts.samples, Math.floor(opts.testTime / timePerIteration))
  start = performance.now()
  for (let i = 0; i < samples; i++) { fn() }
  end = performance.now()
  timePerIteration = (end - start) / samples
  if (opts.name != null) { reports[opts.name] = { meanTime: timePerIteration, options: opts } }\<close>
\<close>

record BenchmarkReport_index =
  meanTime_index :: jsnum
  options_index :: BenchOpts

partial_function (option) warmup_loop_index ::
  "'u plain \<Rightarrow> jsnum \<Rightarrow> rat \<Rightarrow> nat \<Rightarrow> 'u world \<Rightarrow> (nat \<times> rat \<times> 'u world) option" where
  "warmup_loop_index fn limit start0 warmupCount w =
     (if js_lt (Fin (clock (fn w) - start0)) limit
      then warmup_loop_index fn limit start0 (warmupCount + 1) (fn w)
      else Some (warmupCount + 1, clock (fn w), fn w))"

partial_function (option) sample_loop_index ::
  "'u plain \<Rightarrow> jsnum \<Rightarrow> nat \<Rightarrow> 'u world \<Rightarrow> 'u world option" where
  "sample_loop_index fn n i w =
     (if js_lt (Fin (of_nat i)) n then sample_loop_index fn n (i + 1) (fn w) else Some w)"

definition bench_index ::
  "options_arg \<Rightarrow> 'u plain \<Rightarrow> 'u world \<times> (string \<rightharpoonup> BenchmarkReport_index) \<Rightarrow>
     ('u world \<times> (string \<rightharpoonup> BenchmarkReport_index)) option" where
  "bench_index arg fn = (\<lambda>(w, reports).
     let opts = resolve_opts arg;
         start0 = clock w
     in case warmup_loop_index fn (warmupTime opts) start0 0 w of
          None \<Rightarrow> None
        | Some (warmupCount, end0, w1) \<Rightarrow>
            let timePerIteration = js_div (Fin (end0 - start0)) (Fin (of_nat warmupCount));
                n = sample_count opts timePerIteration;
                start1 = clock w1
            in case sample_loop_index fn n 0 w1 of
                 None \<Rightarrow> None
               | Some w2 \<Rightarrow>
                   let timePerIteration = js_div (Fin (clock w2 - start1)) n
                   in Some (w2,
                        case name opts of
                          None \<Rightarrow> reports
                        | Some s \<Rightarrow> reports(s \<mapsto>
                            \<lparr>meanTime_index = timePerIteration, options_index = opts\<rparr>)))"

section \<open>Notions used to state the properties\<close>




text \<open>
  The world a workload leaves, and the elapsed time of every call of the callback made
  during a trial (from the call to the return of its \<open>f\<close>), in the order in which the
  calls begin.
\<close>

primrec final_world :: "'u trace \<Rightarrow> 'u world" where
  "final_world (Done w) = w"
| "final_world (Call w f k) = (let w' = final_world f in final_world (k w'))"

primrec measured :: "'u trace \<Rightarrow> rat list" where
  "measured (Done w) = []"
| "measured (Call w f k) =
     (clock (final_world f) - clock w) # measured f @ measured (k (final_world f))"

text \<open>
  The clock readings written to \<open>start\<close> during a trial, and those written to \<open>end\<close>, each
  in the order in which they are written.
\<close>

primrec starts :: "'u trace \<Rightarrow> rat list" where
  "starts (Done w) = []"
| "starts (Call w f k) = clock w # starts f @ starts (k (final_world f))"

primrec ends :: "'u trace \<Rightarrow> rat list" where
  "ends (Done w) = []"
| "ends (Call w f k) = ends f @ clock (final_world f) # ends (k (final_world f))"


text \<open>
  \<open>n\<close> consecutive trials from a world: the first error, or the elapsed times in the
  order the trials ran and the world after the last.
\<close>

fun trials :: "nat \<Rightarrow> 'u FancyFn \<Rightarrow> 'u world \<Rightarrow> error \<times> 'u world + rat list \<times> 'u world" where
  "trials 0 fn w = Inr ([], w)"
| "trials (Suc n) fn w =
     (case run1 fn w of
        Inl err \<Rightarrow> Inl err
      | Inr (t, w') \<Rightarrow>
          (case trials n fn w' of
             Inl err \<Rightarrow> Inl err
           | Inr (ts, w'') \<Rightarrow> Inr (t # ts, w'')))"

text \<open>
  How often the body of \<open>for (let i = 0; i < n; i++)\<close> runs when \<open>n\<close> is not \<open>Infinity\<close>.
\<close>

fun trip_count :: "jsnum \<Rightarrow> nat" where
  "trip_count (Fin q) = nat \<lceil>q\<rceil>"
| "trip_count _ = 0"

text \<open>Every trial of the workload that returns a time takes at least \<open>d\<close> milliseconds.\<close>

definition takes_at_least :: "'u FancyFn \<Rightarrow> rat \<Rightarrow> bool" where
  "takes_at_least fn d = (\<forall>w t w'. run1 fn w = Inr (t, w') \<longrightarrow> d \<le> t)"

text \<open>The \<open>mean\<close> cell that a call of \<open>reportTable\<close> shows for a name, if it shows one.\<close>

definition rendered :: "error + (string \<rightharpoonup> row) \<Rightarrow> string \<Rightarrow> jsnum option" where
  "rendered res k = (case res of Inl e \<Rightarrow> None | Inr t \<Rightarrow> map_option mean (t k))"

section \<open>Concrete inputs\<close>

text \<open>
  A world with nothing but the clock, at time \<open>0\<close>; the workload that takes \<open>d\<close>
  milliseconds; the workload that measures nothing.
\<close>

definition w0 :: "unit world" where
  "w0 = \<lparr>clock = 0, heap = ()\<rparr>"

definition tick :: "rat \<Rightarrow> 'u plain" where
  "tick d w = w\<lparr>clock := clock w + d\<rparr>"

definition idle :: "'u FancyFn" where
  "idle w = Done w"

text \<open>
  A workload that calls the callback in its first \<open>k\<close> trials only (it counts its trials
  in the heap), and four option values, the last with \<open>samples: 2.5\<close>.
\<close>

definition measures_first :: "nat \<Rightarrow> nat FancyFn" where
  "measures_first k w =
     (if heap w < k
      then Call (w\<lparr>heap := heap w + 1\<rparr>) (Done (tick 1 (w\<lparr>heap := heap w + 1\<rparr>))) Done
      else Done w)"



definition opts1 :: BenchOpts where
  "opts1 = \<lparr>warmupTime = Fin 2, testTime = Fin 3, samples = Fin 2, name = Some ''A'', quiet = True\<rparr>"

definition opts0 :: BenchOpts where
  "opts0 = \<lparr>warmupTime = Fin 0, testTime = Fin 0, samples = Fin 100, name = Some ''A'', quiet = True\<rparr>"


text \<open>
  A report with a given mean; a file system without files; a store holding a report for
  \<open>A\<close>; a report file holding other reports for \<open>A\<close> and \<open>B\<close>; a report file holding the
  empty array \<open>[]\<close>.
\<close>

definition report_of :: "rat \<Rightarrow> BenchmarkReport" where
  "report_of m = \<lparr>meanTime = Fin m, options = defaultOpts, sampleTimes = [m]\<rparr>"

definition no_files :: files where
  "no_files = (\<lambda>f. ReadFails ''ENOENT'')"

definition mem_A :: store where
  "mem_A = [''A'' \<mapsto> report_of 1]"

definition files_A :: files where
  "files_A = no_files(''r.json'' := Parsed (JObject [''A'' \<mapsto> report_of 2, ''B'' \<mapsto> report_of 30]))"

definition files_array :: files where
  "files_array = no_files(''r.json'' := Parsed (JArray []))"

section \<open>Properties of the rounder\<close>








text \<open>
  Values computed: the double written \<open>55.55\<close> and what the rounder makes of it, the
  rounder on 1 and 2, and the rounder on a large negative double.
\<close>

lemma to_double_pos: "0 < x \<Longrightarrow> nearest x = y \<Longrightarrow> y < 2 ^ 1024 \<Longrightarrow> to_double x = Fin y"
  by (simp add: to_double_def Let_def)

lemma roundDigits_eval:
  "to_double (q * 10 ^ d) = Fin p \<Longrightarrow> \<lfloor>p + 1 / 2\<rfloor> = k \<Longrightarrow> to_double (of_int k / 10 ^ d) = r \<Longrightarrow>
     roundDigits (Fin q) d = r"
  by (simp add: roundDigits_def Let_def)

lemma nearest_values:
  "nearest (5555 / 100) = 3908983739069235 / 70368744177664"
  "nearest (3908983739069235 / 70368744177664 * 10 ^ 1) = 5555 / 10"
  "nearest (556 / 10 ^ 1) = 7825004352556237 / 140737488355328"
  "nearest (1 * 10 ^ 2) = 100" "nearest (100 / 10 ^ 2) = 1"
  "nearest (2 * 10 ^ 2) = 200" "nearest (200 / 10 ^ 2) = 2"
  "nearest (555 / 10) = 555 / 10"
  "nearest (556 / 10) = 7825004352556237 / 140737488355328"
  by code_simp+

lemma floor_values:
  "\<lfloor>5555 / 10 + 1 / 2 :: rat\<rfloor> = 556" "\<lfloor>100 + 1 / 2 :: rat\<rfloor> = 100" "\<lfloor>200 + 1 / 2 :: rat\<rfloor> = 200"
  by code_simp+



lemma round_js_1_2: "round_js (Fin 1) = Fin 1 \<and> round_js (Fin 2) = Fin 2"
proof -
  have a1: "to_double (1 * 10 ^ 2) = Fin 100"
    by (rule to_double_pos [OF _ nearest_values(4)]) simp_all
  have b1: "to_double (of_int 100 / 10 ^ 2) = Fin 1"
    unfolding of_int_numeral by (rule to_double_pos [OF _ nearest_values(5)]) simp_all
  have a2: "to_double (2 * 10 ^ 2) = Fin 200"
    by (rule to_double_pos [OF _ nearest_values(6)]) simp_all
  have b2: "to_double (of_int 200 / 10 ^ 2) = Fin 2"
    unfolding of_int_numeral by (rule to_double_pos [OF _ nearest_values(7)]) simp_all
  have "roundDigits (Fin 1) 2 = Fin 1" using a1 floor_values(2) b1 by (rule roundDigits_eval)
  moreover have "roundDigits (Fin 2) 2 = Fin 2" using a2 floor_values(3) b2 by (rule roundDigits_eval)
  ultimately show ?thesis by (simp add: round_js_def)
qed






section \<open>Properties of the single-trial runner\<close>

lemma final_world_Call: "final_world (Call w f k) = final_world (k (final_world f))"
  by simp

lemma measured_Nil: "measured t = [] \<longleftrightarrow> (\<exists>w. t = Done w)"
  by (cases t) simp_all

lemma starts_Nil: "starts t = [] \<longleftrightarrow> measured t = []"
  by (cases t) simp_all

lemma ends_Nil: "ends t = [] \<longleftrightarrow> measured t = []"
  by (cases t) simp_all

lemma call_fn_final: "fst (call_fn t fr) = final_world t"
  by (induction t arbitrary: fr) (simp_all add: case_prod_unfold)

text \<open>
  After the body has run, the frame is untouched if the callback was never called;
  otherwise it holds the reading written to \<open>start\<close> last and the reading written to \<open>end\<close>
  last.
\<close>

lemma call_fn_frame:
  "snd (call_fn t fr) =
     (if measured t = [] then fr
      else \<lparr>start = last (starts t), end' = last (ends t), run = True\<rparr>)"
proof (induction t arbitrary: fr)
  case (Done w)
  show ?case by simp
next
  case (Call w f k)
  let ?w = "final_world f"
  let ?fr1 = "fr\<lparr>start := clock w\<rparr>"
  let ?fr2 = "(snd (call_fn f ?fr1))\<lparr>end' := clock ?w, run := True\<rparr>"
  have step: "call_fn (Call w f k) fr = call_fn (k ?w) ?fr2"
    by (simp add: case_prod_unfold call_fn_final)
  have f: "snd (call_fn f ?fr1) =
      (if measured f = [] then ?fr1 else \<lparr>start = last (starts f), end' = last (ends f), run = True\<rparr>)"
    by (rule Call.IH(1))
  have k: "snd (call_fn (k ?w) ?fr2) =
      (if measured (k ?w) = [] then ?fr2
       else \<lparr>start = last (starts (k ?w)), end' = last (ends (k ?w)), run = True\<rparr>)"
    by (rule Call.IH(2) [OF rangeI])
  show ?case
  proof (cases "measured (k ?w) = []")
    case True
    then have "starts (k ?w) = []" "ends (k ?w) = []" by (simp_all add: starts_Nil ends_Nil)
    then show ?thesis
      unfolding step unfolding k unfolding f using True by (simp add: starts_Nil)
  next
    case False
    then have "starts (k ?w) \<noteq> []" "ends (k ?w) \<noteq> []" by (simp_all add: starts_Nil ends_Nil)
    then show ?thesis
      unfolding step unfolding k using False by simp
  qed
qed

lemma run1_measured:
  "run1 fn w =
     (if measured (fn w) = [] then Inl (Error ''Benchmark must run iteration function'', final_world (fn w))
      else Inr (last (ends (fn w)) - last (starts (fn w)), final_world (fn w)))"
proof -
  obtain w' fr where c: "call_fn (fn w) \<lparr>start = 0, end' = 0, run = False\<rparr> = (w', fr)"
    by (cases "call_fn (fn w) \<lparr>start = 0, end' = 0, run = False\<rparr>")
  have w': "w' = final_world (fn w)"
    using call_fn_final [of "fn w" "\<lparr>start = 0, end' = 0, run = False\<rparr>"] c by simp
  have fr: "fr = (if measured (fn w) = [] then \<lparr>start = 0, end' = 0, run = False\<rparr>
      else \<lparr>start = last (starts (fn w)), end' = last (ends (fn w)), run = True\<rparr>)"
    using call_fn_frame [of "fn w" "\<lparr>start = 0, end' = 0, run = False\<rparr>"] c by simp
  show ?thesis using c w' fr by (simp add: run1_def)
qed





section \<open>Properties of the two loops\<close>

lemma trials_length: "trials n fn w = Inr (ts, w') \<Longrightarrow> length ts = n"
  by (induction n arbitrary: w ts) (auto split: sum.splits prod.splits)

lemma warmup_loop_returns:
  assumes "warmup_loop fn limit c0 t0 w = Some r"
  shows "\<forall>c t w'. r = Inr (c, t, w') \<longrightarrow>
     c0 < c \<and> 4 \<le> c \<and> \<not> js_lt (Fin t) limit \<and>
     (\<exists>ts. trials (c - c0) fn w = Inr (ts, w') \<and> t = t0 + sum_list ts \<and>
        (\<forall>j. 0 < j \<and> j < c - c0 \<longrightarrow>
           c0 + j < 4 \<or> js_lt (Fin (t0 + sum_list (take j ts))) limit))"
proof (rule warmup_loop.raw_induct [where P = "\<lambda>fn limit c0 t0 w r. \<forall>c t w'. r = Inr (c, t, w') \<longrightarrow>
     c0 < c \<and> 4 \<le> c \<and> \<not> js_lt (Fin t) limit \<and>
     (\<exists>ts. trials (c - c0) fn w = Inr (ts, w') \<and> t = t0 + sum_list ts \<and>
        (\<forall>j. 0 < j \<and> j < c - c0 \<longrightarrow>
           c0 + j < 4 \<or> js_lt (Fin (t0 + sum_list (take j ts))) limit))", OF _ assms])
  fix loop :: "'a FancyFn \<Rightarrow> jsnum \<Rightarrow> nat \<Rightarrow> rat \<Rightarrow> 'a world \<Rightarrow> (error \<times> 'a world + nat \<times> rat \<times> 'a world) option"
  fix fn limit c0 t0 w r
  assume IH: "\<And>fn limit c0 t0 w r. loop fn limit c0 t0 w = Some r \<Longrightarrow> \<forall>c t w'. r = Inr (c, t, w') \<longrightarrow>
     c0 < c \<and> 4 \<le> c \<and> \<not> js_lt (Fin t) limit \<and>
     (\<exists>ts. trials (c - c0) fn w = Inr (ts, w') \<and> t = t0 + sum_list ts \<and>
        (\<forall>j. 0 < j \<and> j < c - c0 \<longrightarrow>
           c0 + j < 4 \<or> js_lt (Fin (t0 + sum_list (take j ts))) limit))"
  assume body: "(case run1 fn w of
        Inl err \<Rightarrow> Some (Inl err)
      | Inr (t, w') \<Rightarrow>
          if c0 + 1 < 4 \<or> js_lt (Fin (t0 + t)) limit
          then loop fn limit (c0 + 1) (t0 + t) w'
          else Some (Inr (c0 + 1, t0 + t, w'))) = Some r"
  show "\<forall>c t w'. r = Inr (c, t, w') \<longrightarrow>
     c0 < c \<and> 4 \<le> c \<and> \<not> js_lt (Fin t) limit \<and>
     (\<exists>ts. trials (c - c0) fn w = Inr (ts, w') \<and> t = t0 + sum_list ts \<and>
        (\<forall>j. 0 < j \<and> j < c - c0 \<longrightarrow>
           c0 + j < 4 \<or> js_lt (Fin (t0 + sum_list (take j ts))) limit))"
  proof (intro allI impI)
    fix c t w' assume r: "r = Inr (c, t, w')"
    from body r obtain t1 w1 where r1: "run1 fn w = Inr (t1, w1)"
      by (cases "run1 fn w") auto
    show "c0 < c \<and> 4 \<le> c \<and> \<not> js_lt (Fin t) limit \<and>
     (\<exists>ts. trials (c - c0) fn w = Inr (ts, w') \<and> t = t0 + sum_list ts \<and>
        (\<forall>j. 0 < j \<and> j < c - c0 \<longrightarrow>
           c0 + j < 4 \<or> js_lt (Fin (t0 + sum_list (take j ts))) limit))"
    proof (cases "c0 + 1 < 4 \<or> js_lt (Fin (t0 + t1)) limit")
      case True
      with body r1 have "loop fn limit (c0 + 1) (t0 + t1) w1 = Some r" by simp
      from IH [OF this] r obtain ts where
        a: "c0 + 1 < c" "4 \<le> c" "\<not> js_lt (Fin t) limit"
        and b: "trials (c - (c0 + 1)) fn w1 = Inr (ts, w')" "t = t0 + t1 + sum_list ts"
        and k: "\<forall>j. 0 < j \<and> j < c - (c0 + 1) \<longrightarrow>
           c0 + 1 + j < 4 \<or> js_lt (Fin (t0 + t1 + sum_list (take j ts))) limit"
        by blast
      have "c - c0 = Suc (c - (c0 + 1))" using a by simp
      then have tr: "trials (c - c0) fn w = Inr (t1 # ts, w')"
        using r1 b by simp
      have "c0 + j < 4 \<or> js_lt (Fin (t0 + sum_list (take j (t1 # ts)))) limit"
        if j: "0 < j \<and> j < c - c0" for j
      proof (cases j)
        case 0
        with j show ?thesis by simp
      next
        case (Suc i)
        show ?thesis
        proof (cases i)
          case 0
          with Suc True show ?thesis by simp
        next
          case (Suc i')
          with \<open>j = Suc i\<close> j have "0 < i \<and> i < c - (c0 + 1)" by simp
          with k have "c0 + 1 + i < 4 \<or> js_lt (Fin (t0 + t1 + sum_list (take i ts))) limit"
            by blast
          with \<open>j = Suc i\<close> show ?thesis by (simp add: add.assoc)
        qed
      qed
      with tr a b show ?thesis by (intro conjI exI [of _ "t1 # ts"]) simp_all
    next
      case False
      with body r1 r have e: "c = c0 + 1" "t = t0 + t1" "w' = w1" by simp_all
      have "trials (c - c0) fn w = Inr ([t1], w')" using e r1 by simp
      then show ?thesis using e False by auto
    qed
  qed
qed

lemma run1_error:
  "run1 fn w = Inl (e, w') \<Longrightarrow> e = Error ''Benchmark must run iteration function''"
  by (auto simp add: run1_def split: prod.splits if_splits)

lemma warmup_loop_raises:
  assumes "warmup_loop fn limit c0 t0 w = Some r"
  shows "\<forall>x. r = Inl x \<longrightarrow> (\<exists>w1. run1 fn w1 = Inl x)"
proof (rule warmup_loop.raw_induct [where P = "\<lambda>fn limit c0 t0 w r.
     \<forall>x. r = Inl x \<longrightarrow> (\<exists>w1. run1 fn w1 = Inl x)", OF _ assms])
  fix loop :: "'a FancyFn \<Rightarrow> jsnum \<Rightarrow> nat \<Rightarrow> rat \<Rightarrow> 'a world \<Rightarrow> (error \<times> 'a world + nat \<times> rat \<times> 'a world) option"
  fix fn limit c0 t0 w r
  assume IH: "\<And>fn limit c0 t0 w r. loop fn limit c0 t0 w = Some r \<Longrightarrow>
     \<forall>x. r = Inl x \<longrightarrow> (\<exists>w1. run1 fn w1 = Inl x)"
  assume body: "(case run1 fn w of
        Inl err \<Rightarrow> Some (Inl err)
      | Inr (t, w') \<Rightarrow>
          if c0 + 1 < 4 \<or> js_lt (Fin (t0 + t)) limit
          then loop fn limit (c0 + 1) (t0 + t) w'
          else Some (Inr (c0 + 1, t0 + t, w'))) = Some r"
  show "\<forall>x. r = Inl x \<longrightarrow> (\<exists>w1. run1 fn w1 = Inl x)"
  proof (cases "run1 fn w")
    case (Inl err)
    with body show ?thesis by auto
  next
    case (Inr p)
    obtain t1 w1 where p: "p = (t1, w1)" by (cases p)
    show ?thesis
    proof (cases "c0 + 1 < 4 \<or> js_lt (Fin (t0 + t1)) limit")
      case True
      with body Inr p have "loop fn limit (c0 + 1) (t0 + t1) w1 = Some r" by simp
      from IH [OF this] show ?thesis .
    next
      case False
      with body Inr p show ?thesis by auto
    qed
  qed
qed

lemma sample_loop_returns:
  assumes "sample_loop fn n i tot coll w = Some r"
  shows "\<forall>tot' coll' w'. r = Inr (tot', coll', w') \<longrightarrow>
     (\<exists>ts. trials (length ts) fn w = Inr (ts, w') \<and> coll' = coll @ ts \<and>
           tot' = tot + sum_list ts \<and>
           \<not> js_lt (Fin (of_nat (i + length ts))) n \<and>
           (\<forall>j < length ts. js_lt (Fin (of_nat (i + j))) n))"
proof (rule sample_loop.raw_induct [where P = "\<lambda>fn n i tot coll w r.
     \<forall>tot' coll' w'. r = Inr (tot', coll', w') \<longrightarrow>
     (\<exists>ts. trials (length ts) fn w = Inr (ts, w') \<and> coll' = coll @ ts \<and>
           tot' = tot + sum_list ts \<and>
           \<not> js_lt (Fin (of_nat (i + length ts))) n \<and>
           (\<forall>j < length ts. js_lt (Fin (of_nat (i + j))) n))", OF _ assms])
  fix loop :: "'a FancyFn \<Rightarrow> jsnum \<Rightarrow> nat \<Rightarrow> rat \<Rightarrow> rat list \<Rightarrow> 'a world \<Rightarrow> (error \<times> 'a world + rat \<times> rat list \<times> 'a world) option"
  fix fn n i tot coll w r
  assume IH: "\<And>fn n i tot coll w r. loop fn n i tot coll w = Some r \<Longrightarrow>
     \<forall>tot' coll' w'. r = Inr (tot', coll', w') \<longrightarrow>
     (\<exists>ts. trials (length ts) fn w = Inr (ts, w') \<and> coll' = coll @ ts \<and>
           tot' = tot + sum_list ts \<and>
           \<not> js_lt (Fin (of_nat (i + length ts))) n \<and>
           (\<forall>j < length ts. js_lt (Fin (of_nat (i + j))) n))"
  assume body: "(if js_lt (Fin (of_nat i)) n
      then (case run1 fn w of
              Inl err \<Rightarrow> Some (Inl err)
            | Inr (time, w') \<Rightarrow> loop fn n (i + 1) (tot + time) (coll @ [time]) w')
      else Some (Inr (tot, coll, w))) = Some r"
  show "\<forall>tot' coll' w'. r = Inr (tot', coll', w') \<longrightarrow>
     (\<exists>ts. trials (length ts) fn w = Inr (ts, w') \<and> coll' = coll @ ts \<and>
           tot' = tot + sum_list ts \<and>
           \<not> js_lt (Fin (of_nat (i + length ts))) n \<and>
           (\<forall>j < length ts. js_lt (Fin (of_nat (i + j))) n))"
  proof (intro allI impI)
    fix tot' coll' w' assume r: "r = Inr (tot', coll', w')"
    show "\<exists>ts. trials (length ts) fn w = Inr (ts, w') \<and> coll' = coll @ ts \<and>
           tot' = tot + sum_list ts \<and>
           \<not> js_lt (Fin (of_nat (i + length ts))) n \<and>
           (\<forall>j < length ts. js_lt (Fin (of_nat (i + j))) n)"
    proof (cases "js_lt (Fin (of_nat i)) n")
      case False
      with body r have "tot' = tot" "coll' = coll" "w' = w" by simp_all
      with False show ?thesis by (intro exI [of _ "[]"]) simp
    next
      case True
      from body r True obtain t1 w1 where r1: "run1 fn w = Inr (t1, w1)"
        by (cases "run1 fn w") auto
      with body True have "loop fn n (i + 1) (tot + t1) (coll @ [t1]) w1 = Some r" by simp
      from IH [OF this] r obtain ts where
        a: "trials (length ts) fn w1 = Inr (ts, w')" "coll' = (coll @ [t1]) @ ts"
           "tot' = tot + t1 + sum_list ts"
           "\<not> js_lt (Fin (of_nat (i + 1 + length ts))) n"
        and b: "\<forall>j < length ts. js_lt (Fin (of_nat (i + 1 + j))) n"
        by blast
      have c: "\<forall>j < length (t1 # ts). js_lt (Fin (of_nat (i + j))) n"
      proof (intro allI impI)
        fix j assume "j < length (t1 # ts)"
        then show "js_lt (Fin (of_nat (i + j))) n"
          using True b by (cases j) auto
      qed
      have "trials (length (t1 # ts)) fn w = Inr (t1 # ts, w')" using r1 a by simp
      with a c show ?thesis by (intro exI [of _ "t1 # ts"]) simp
    qed
  qed
qed

lemma sample_loop_raises:
  assumes "sample_loop fn n i tot coll w = Some r"
  shows "\<forall>x. r = Inl x \<longrightarrow> (\<exists>w1. run1 fn w1 = Inl x)"
proof (rule sample_loop.raw_induct [where P = "\<lambda>fn n i tot coll w r.
     \<forall>x. r = Inl x \<longrightarrow> (\<exists>w1. run1 fn w1 = Inl x)", OF _ assms])
  fix loop :: "'a FancyFn \<Rightarrow> jsnum \<Rightarrow> nat \<Rightarrow> rat \<Rightarrow> rat list \<Rightarrow> 'a world \<Rightarrow> (error \<times> 'a world + rat \<times> rat list \<times> 'a world) option"
  fix fn n i tot coll w r
  assume IH: "\<And>fn n i tot coll w r. loop fn n i tot coll w = Some r \<Longrightarrow>
     \<forall>x. r = Inl x \<longrightarrow> (\<exists>w1. run1 fn w1 = Inl x)"
  assume body: "(if js_lt (Fin (of_nat i)) n
      then (case run1 fn w of
              Inl err \<Rightarrow> Some (Inl err)
            | Inr (time, w') \<Rightarrow> loop fn n (i + 1) (tot + time) (coll @ [time]) w')
      else Some (Inr (tot, coll, w))) = Some r"
  show "\<forall>x. r = Inl x \<longrightarrow> (\<exists>w1. run1 fn w1 = Inl x)"
  proof (cases "js_lt (Fin (of_nat i)) n")
    case False
    with body show ?thesis by auto
  next
    case True
    show ?thesis
    proof (cases "run1 fn w")
      case (Inl err)
      with body True show ?thesis by auto
    next
      case (Inr p)
      obtain t1 w1 where p: "p = (t1, w1)" by (cases p)
      with body True Inr have "loop fn n (i + 1) (tot + t1) (coll @ [t1]) w1 = Some r" by simp
      from IH [OF this] show ?thesis .
    qed
  qed
qed

lemma js_lt_trip_count: "n \<noteq> PInf \<Longrightarrow> js_lt (Fin (of_nat j)) n \<longleftrightarrow> j < trip_count n"
proof (cases n)
  case (Fin q)
  have "(of_nat j < q) = (j < nat \<lceil>q\<rceil>)"
  proof
    assume "of_nat j < q"
    then have "of_int (int j) < q" by simp
    then have "int j < \<lceil>q\<rceil>" by (simp only: less_ceiling_iff)
    then show "j < nat \<lceil>q\<rceil>" by linarith
  next
    assume "j < nat \<lceil>q\<rceil>"
    then have "int j < \<lceil>q\<rceil>" by linarith
    then have "of_int (int j) < q" by (simp only: less_ceiling_iff)
    then show "of_nat j < q" by simp
  qed
  with Fin show ?thesis by simp
qed simp_all

lemma sample_loop_count:
  assumes "sample_loop fn n 0 0 [] w = Some (Inr (tot, coll, w'))"
  shows "n \<noteq> PInf \<and> trials (trip_count n) fn w = Inr (coll, w') \<and> tot = sum_list coll \<and>
         length coll = trip_count n"
proof -
  from sample_loop_returns [OF assms] obtain ts where
    a: "trials (length ts) fn w = Inr (ts, w')" "coll = ts" "tot = sum_list ts"
       "\<not> js_lt (Fin (of_nat (length ts))) n"
    and b: "\<forall>j < length ts. js_lt (Fin (of_nat j)) n"
    by auto
  have n: "n \<noteq> PInf" using a(4) by (cases n) auto
  have c: "\<not> length ts < trip_count n" using a(4) n by (simp add: js_lt_trip_count)
  have "\<forall>j < length ts. j < trip_count n" using b n by (simp add: js_lt_trip_count)
  then have "length ts \<le> trip_count n"
    by (cases "length ts") auto
  with c have "length ts = trip_count n" by simp
  with a n show ?thesis by simp
qed

text \<open>
  The sampling loop ends unless the sample count is \<open>Infinity\<close>; the warmup loop ends
  when every trial takes at least some positive time and the limit is not \<open>Infinity\<close>.
\<close>

lemma sample_loop_total:
  assumes "n \<noteq> PInf"
  shows "\<exists>r. sample_loop fn n i tot coll w = Some r"
proof (induction k \<equiv> "trip_count n - i" arbitrary: i tot coll w rule: less_induct)
  case less
  show ?case
  proof (cases "js_lt (Fin (of_nat i)) n")
    case False
    then show ?thesis by (subst sample_loop.simps) simp
  next
    case True
    then have i: "i < trip_count n" using assms by (simp add: js_lt_trip_count)
    show ?thesis
    proof (cases "run1 fn w")
      case (Inl err)
      with True show ?thesis by (subst sample_loop.simps) simp
    next
      case (Inr p)
      obtain t1 w1 where p: "p = (t1, w1)" by (cases p)
      have "trip_count n - (i + 1) < trip_count n - i" using i by simp
      from less [OF this] obtain r where
        "sample_loop fn n (i + 1) (tot + t1) (coll @ [t1]) w1 = Some r" by blast
      with True Inr p show ?thesis by (subst sample_loop.simps) simp
    qed
  qed
qed


lemma warmup_loop_total:
  assumes tal: "takes_at_least fn d" and d: "0 < d"
    and lim: "limit \<noteq> PInf"
  shows "\<exists>r. warmup_loop fn limit c t0 w = Some r"
proof -
  have prog: "d \<le> t" if "run1 fn w = Inr (t, w')" for w t w'
    using tal that unfolding takes_at_least_def by blast
  define need :: "rat \<Rightarrow> nat" where
    "need x = (case limit of Fin l \<Rightarrow> nat \<lceil>(l - x) / d\<rceil> | _ \<Rightarrow> 0)" for x
  have mono: "need (x + t) \<le> need x" if "d \<le> t" for x t
  proof (cases limit)
    case (Fin l)
    have "(l - (x + t)) / d \<le> (l - x) / d" using that d by (simp add: divide_right_mono)
    then have "\<lceil>(l - (x + t)) / d\<rceil> \<le> \<lceil>(l - x) / d\<rceil>" by (rule ceiling_mono)
    then show ?thesis using Fin by (simp add: need_def nat_mono)
  qed (simp_all add: need_def)
  have strict: "need (x + t) < need x" if "d \<le> t" "js_lt (Fin (x + t)) limit" for x t
  proof (cases limit)
    case (Fin l)
    with that have lt: "x + t < l" by simp
    have "l - (x + t) = (l - x) - t" by simp
    then have "(l - (x + t)) / d = (l - x) / d - t / d" by (simp only: diff_divide_distrib)
    moreover have "1 \<le> t / d" using that(1) d by simp
    ultimately have "(l - (x + t)) / d \<le> (l - x) / d - 1" by simp
    then have "\<lceil>(l - (x + t)) / d\<rceil> \<le> \<lceil>(l - x) / d - 1\<rceil>" by (rule ceiling_mono)
    then have a: "\<lceil>(l - (x + t)) / d\<rceil> \<le> \<lceil>(l - x) / d\<rceil> - 1" by simp
    have "0 < (l - x) / d" using lt that(1) d by simp
    then have "0 < \<lceil>(l - x) / d\<rceil>" by (simp add: ceiling_less_iff)
    with a show ?thesis using Fin by (simp add: need_def)
  next
    case PInf
    with lim show ?thesis by simp
  qed (use that in simp_all)
  show ?thesis
  proof (induction k \<equiv> "(4 - c) + need t0" arbitrary: c t0 w rule: less_induct)
    case less
    show ?case
    proof (cases "run1 fn w")
      case (Inl err)
      then show ?thesis by (subst warmup_loop.simps) simp
    next
      case (Inr p)
      obtain t1 w1 where p: "p = (t1, w1)" by (cases p)
      have t1: "d \<le> t1" using prog Inr p by simp
      show ?thesis
      proof (cases "c + 1 < 4 \<or> js_lt (Fin (t0 + t1)) limit")
        case False
        with Inr p show ?thesis by (subst warmup_loop.simps) simp
      next
        case True
        have "(4 - (c + 1)) + need (t0 + t1) < (4 - c) + need t0"
        proof (cases "c + 1 < 4")
          case True
          then show ?thesis using mono [OF t1, of t0] by simp
        next
          case False
          with True have "js_lt (Fin (t0 + t1)) limit" by simp
          from strict [OF t1 this] show ?thesis by simp
        qed
        from less [OF this] obtain r where
          "warmup_loop fn limit (c + 1) (t0 + t1) w1 = Some r" by blast
        with True Inr p show ?thesis by (subst warmup_loop.simps) simp
      qed
    qed
  qed
qed

lemma trials_lower:
  assumes tal: "takes_at_least fn d"
  shows "trials n fn w = Inr (ts, w') \<Longrightarrow> of_nat n * d \<le> sum_list ts"
proof (induction n arbitrary: w ts)
  case 0
  then show ?case by simp
next
  case (Suc n)
  from Suc.prems obtain t1 w1 ts1 where
    r: "run1 fn w = Inr (t1, w1)" and t: "trials n fn w1 = Inr (ts1, w')" and ts: "ts = t1 # ts1"
    by (auto split: sum.splits prod.splits)
  have "d \<le> t1" using tal r unfolding takes_at_least_def by blast
  with Suc.IH [OF t] ts show ?case by (simp add: algebra_simps)
qed

section \<open>Properties of the engine\<close>

lemma benchFancy_unfold:
  "benchFancy arg fn (w, reports) =
     (case warmup_loop fn (warmupTime (resolve_opts arg)) 0 0 w of
        None \<Rightarrow> None
      | Some (Inl (err, w1)) \<Rightarrow> Some (Inl (err, w1, reports))
      | Some (Inr (c, t, w1)) \<Rightarrow>
          (case sample_loop fn (sample_count (resolve_opts arg) (js_div (Fin t) (Fin (of_nat c)))) 0 0 [] w1 of
             None \<Rightarrow> None
           | Some (Inl (err, w2)) \<Rightarrow> Some (Inl (err, w2, reports))
           | Some (Inr (tot, coll, w2)) \<Rightarrow>
               Some (Inr (w2,
                 case name (resolve_opts arg) of
                   None \<Rightarrow> reports
                 | Some s \<Rightarrow> reports(s \<mapsto>
                     \<lparr>meanTime = js_div (Fin tot) (sample_count (resolve_opts arg) (js_div (Fin t) (Fin (of_nat c)))),
                      options = resolve_opts arg, sampleTimes = coll\<rparr>)))))"
  unfolding benchFancy_def Let_def by simp

lemma benchFancy_Inr:
  assumes "benchFancy arg fn (w, reports) = Some (Inr (w', reports'))"
  shows "\<exists>c t w1 tot coll.
     warmup_loop fn (warmupTime (resolve_opts arg)) 0 0 w = Some (Inr (c, t, w1)) \<and>
     sample_loop fn (sample_count (resolve_opts arg) (js_div (Fin t) (Fin (of_nat c)))) 0 0 [] w1
       = Some (Inr (tot, coll, w')) \<and>
     reports' =
       (case name (resolve_opts arg) of
          None \<Rightarrow> reports
        | Some s \<Rightarrow> reports(s \<mapsto>
            \<lparr>meanTime = js_div (Fin tot) (sample_count (resolve_opts arg) (js_div (Fin t) (Fin (of_nat c)))),
             options = resolve_opts arg, sampleTimes = coll\<rparr>))"
proof (cases "warmup_loop fn (warmupTime (resolve_opts arg)) 0 0 w")
  case None
  with assms show ?thesis by (simp add: benchFancy_unfold)
next
  case (Some x)
  show ?thesis
  proof (cases x)
    case (Inl p)
    with Some assms show ?thesis by (cases p) (simp add: benchFancy_unfold)
  next
    case (Inr p)
    obtain c t w1 where p: "p = (c, t, w1)" by (cases p)
    let ?n = "sample_count (resolve_opts arg) (js_div (Fin t) (Fin (of_nat c)))"
    show ?thesis
    proof (cases "sample_loop fn ?n 0 0 [] w1")
      case None
      with Some Inr p assms show ?thesis by (simp add: benchFancy_unfold)
    next
      case (Some y)
      note sl = Some
      show ?thesis
      proof (cases y)
        case (Inl q)
        with sl \<open>warmup_loop fn (warmupTime (resolve_opts arg)) 0 0 w = Some x\<close> Inr p assms
        show ?thesis by (cases q) (simp add: benchFancy_unfold)
      next
        case (Inr q)
        obtain tot coll w2 where q: "q = (tot, coll, w2)" by (cases q)
        from sl Inr q \<open>warmup_loop fn (warmupTime (resolve_opts arg)) 0 0 w = Some x\<close> \<open>x = Inr p\<close> p assms
        show ?thesis by (simp add: benchFancy_unfold)
      qed
    qed
  qed
qed

lemma benchFancy_Inl:
  assumes "benchFancy arg fn (w, reports) = Some (Inl (e, w', reports'))"
  shows "reports' = reports \<and>
   (warmup_loop fn (warmupTime (resolve_opts arg)) 0 0 w = Some (Inl (e, w')) \<or>
    (\<exists>c t w1.
       warmup_loop fn (warmupTime (resolve_opts arg)) 0 0 w = Some (Inr (c, t, w1)) \<and>
       sample_loop fn (sample_count (resolve_opts arg) (js_div (Fin t) (Fin (of_nat c)))) 0 0 [] w1
         = Some (Inl (e, w'))))"
proof (cases "warmup_loop fn (warmupTime (resolve_opts arg)) 0 0 w")
  case None
  with assms show ?thesis by (simp add: benchFancy_unfold)
next
  case (Some x)
  show ?thesis
  proof (cases x)
    case (Inl p)
    with Some assms show ?thesis by (cases p) (simp add: benchFancy_unfold)
  next
    case (Inr p)
    obtain c t w1 where p: "p = (c, t, w1)" by (cases p)
    let ?n = "sample_count (resolve_opts arg) (js_div (Fin t) (Fin (of_nat c)))"
    show ?thesis
    proof (cases "sample_loop fn ?n 0 0 [] w1")
      case None
      with Some Inr p assms show ?thesis by (simp add: benchFancy_unfold)
    next
      case (Some y)
      note sl = Some
      show ?thesis
      proof (cases y)
        case (Inl q)
        with sl \<open>warmup_loop fn (warmupTime (resolve_opts arg)) 0 0 w = Some x\<close> Inr p assms
        show ?thesis by (cases q) (simp add: benchFancy_unfold)
      next
        case (Inr q)
        obtain tot coll w2 where q: "q = (tot, coll, w2)" by (cases q)
        from sl Inr q \<open>warmup_loop fn (warmupTime (resolve_opts arg)) 0 0 w = Some x\<close> \<open>x = Inr p\<close> p assms
        show ?thesis by (simp add: benchFancy_unfold)
      qed
    qed
  qed
qed




text \<open>
  The sample count. With a non-zero estimate and finite options it is
  \<open>max(samples, floor(testTime / estimate))\<close>, hence at least \<open>samples\<close>, and it grows
  without bound as the estimate shrinks. With a zero estimate it is \<open>Infinity\<close> when
  \<open>testTime\<close> is positive (the run then never returns) and \<open>NaN\<close> when \<open>testTime\<close> is zero.
\<close>

lemma sample_count_Fin:
  "testTime opts = Fin T \<Longrightarrow> samples opts = Fin s \<Longrightarrow> e \<noteq> 0 \<Longrightarrow>
     sample_count opts (Fin e) = Fin (max s (of_int \<lfloor>T / e\<rfloor>))"
  by (simp add: sample_count_def)

lemma sample_count_zero_estimate:
  "testTime opts = Fin T \<Longrightarrow> samples opts = Fin s \<Longrightarrow>
     sample_count opts (Fin 0) = (if T = 0 then NaN else if 0 < T then PInf else Fin s)"
  by (simp add: sample_count_def)

lemma sample_count_unbounded:
  assumes "testTime opts = Fin T" "0 < T" "samples opts = Fin s"
  shows "\<exists>e q. 0 < e \<and> sample_count opts (Fin e) = Fin q \<and> B < q"
proof -
  define k :: int where "k = max 1 (\<lfloor>B\<rfloor> + 1)"
  have k: "0 < k" "B < of_int k" unfolding k_def by linarith+
  define e where "e = T / of_int k"
  have e: "0 < e" using assms(2) k(1) by (simp add: e_def)
  have "T / e = of_int k" using assms(2) k(1) by (simp add: e_def)
  then have "sample_count opts (Fin e) = Fin (max s (of_int k))"
    using assms e by (simp add: sample_count_Fin)
  moreover have "B < max s (of_int k)" using k(2) by simp
  ultimately show ?thesis using e by blast
qed

lemma benchFancy_never_returns_on_infinite_count:
  assumes "warmup_loop fn (warmupTime (resolve_opts arg)) 0 0 w = Some (Inr (c, t, w1))"
    and "sample_count (resolve_opts arg) (js_div (Fin t) (Fin (of_nat c))) = PInf"
  shows "benchFancy arg fn (w, reports) \<noteq> Some (Inr x)"
proof
  assume a: "benchFancy arg fn (w, reports) = Some (Inr x)"
  obtain w' reports' where x: "x = (w', reports')" by (cases x)
  from benchFancy_Inr [OF a [unfolded x]] assms obtain tot coll where
    "sample_loop fn PInf 0 0 [] w1 = Some (Inr (tot, coll, w'))" by auto
  from sample_loop_count [OF this] show False by simp
qed

text \<open>
  C4. The sample count is meant to be at least \<open>opts.samples\<close>. The run below has
  \<open>warmupTime = 0\<close>, \<open>testTime = 0\<close>, \<open>samples = 100\<close> and a clock that does not advance during
  the trials: the warmup ends after 4 trials with an estimate of \<open>0\<close>, the sample count
  is \<open>Math.max(100, Math.floor(0 / 0))\<close>, which is \<open>NaN\<close>, the loop \<open>i < NaN\<close> runs no
  sample, and the report has no sample time and the mean \<open>NaN\<close>.
\<close>

theorem no_sample_on_zero_estimate:
  "warmup_loop (\<lambda>w. Call w (Done (tick 0 w)) Done) (warmupTime (resolve_opts (Opts opts0))) 0 0 w0
     = Some (Inr (4, 0, w0)) \<and>
   js_div (Fin 0) (Fin (of_nat 4)) = Fin 0 \<and>
   samples (resolve_opts (Opts opts0)) = Fin 100 \<and>
   sample_count (resolve_opts (Opts opts0)) (Fin 0) = NaN \<and>
   bench (Opts opts0) (tick 0) (w0, Map.empty)
     = Some (Inr (w0, [''A'' \<mapsto> \<lparr>meanTime = NaN, options = opts0, sampleTimes = []\<rparr>]))"
  by (simp add: bench_def benchFancy_unfold sample_count_def warmup_loop.simps sample_loop.simps
        run1_def tick_def w0_def opts0_def)

text \<open>
  The engine returns (with a report or an error) when every trial takes at least some
  positive time and none of the three numeric options is \<open>Infinity\<close>.
\<close>

lemma sample_count_finite:
  assumes "testTime opts \<noteq> PInf" "samples opts \<noteq> PInf" "0 < e"
  shows "sample_count opts (Fin e) \<noteq> PInf"
proof -
  have "Math_floor (js_div (testTime opts) (Fin e)) \<noteq> PInf"
    using assms(1,3) by (cases "testTime opts") simp_all
  then show ?thesis
    using assms(2) unfolding sample_count_def
    by (cases "samples opts"; cases "Math_floor (js_div (testTime opts) (Fin e))") simp_all
qed

lemma benchFancy_returns:
  assumes prog: "takes_at_least fn d" and d: "0 < d"
    and fin: "warmupTime (resolve_opts arg) \<noteq> PInf" "testTime (resolve_opts arg) \<noteq> PInf"
      "samples (resolve_opts arg) \<noteq> PInf"
  shows "\<exists>r. benchFancy arg fn (w, reports) = Some r"
proof -
  from warmup_loop_total [OF prog d fin(1)] obtain x where
    wl: "warmup_loop fn (warmupTime (resolve_opts arg)) 0 0 w = Some x" by blast
  show ?thesis
  proof (cases x)
    case (Inl p)
    with wl show ?thesis by (cases p) (simp add: benchFancy_unfold)
  next
    case (Inr p)
    obtain c t w1 where p: "p = (c, t, w1)" by (cases p)
    from warmup_loop_returns [OF wl] Inr p obtain ts where
      c: "4 \<le> c" and ts: "trials c fn w = Inr (ts, w1)" "t = sum_list ts" by auto
    have "of_nat c * d \<le> t" using trials_lower [OF prog ts(1)] ts(2) by simp
    moreover have "0 < of_nat c * d" using c d by simp
    ultimately have "0 < t / of_nat c" using c by simp
    moreover have "js_div (Fin t) (Fin (of_nat c)) = Fin (t / of_nat c)" using c by simp
    ultimately have "sample_count (resolve_opts arg) (js_div (Fin t) (Fin (of_nat c))) \<noteq> PInf"
      using sample_count_finite [OF fin(2,3)] by simp
    from sample_loop_total [OF this] obtain y where
      sl: "sample_loop fn (sample_count (resolve_opts arg) (js_div (Fin t) (Fin (of_nat c)))) 0 0 [] w1 = Some y"
      by blast
    show ?thesis
    proof (cases y)
      case (Inl q)
      with sl wl \<open>x = Inr p\<close> p show ?thesis by (cases q) (simp add: benchFancy_unfold)
    next
      case (Inr q)
      with sl wl \<open>x = Inr p\<close> p show ?thesis by (cases q) (simp add: benchFancy_unfold)
    qed
  qed
qed

lemma run1_Done:
  "fn w = Done w' \<Longrightarrow> run1 fn w = Inl (Error ''Benchmark must run iteration function'', w')"
  by (simp add: run1_def)

text \<open>
  C3. A workload that returns without calling the callback makes \<open>run1\<close> throw
  \<open>Error('Benchmark must run iteration function')\<close>. Either loop ends with that error at
  the trial where it happens, and so does \<open>benchFancy\<close>. Whenever \<open>benchFancy\<close> ends with
  an error, at whatever trial, the store is the one it started with and the error is this
  one, thrown at a trial in which the workload returned without calling the callback.
\<close>

theorem unmeasured_workload_aborts:
  "(fn w = Done w' \<longrightarrow>
      run1 fn w = Inl (Error ''Benchmark must run iteration function'', w') \<and>
      warmup_loop fn limit warmupCount warmupTotal w
        = Some (Inl (Error ''Benchmark must run iteration function'', w')) \<and>
      (js_lt (Fin (of_nat i)) n \<longrightarrow>
         sample_loop fn n i totalTime collected w
           = Some (Inl (Error ''Benchmark must run iteration function'', w'))) \<and>
      benchFancy arg fn (w, reports)
        = Some (Inl (Error ''Benchmark must run iteration function'', w', reports))) \<and>
   (benchFancy arg fn (w, reports) = Some (Inl (e, w1, reports')) \<longrightarrow>
      reports' = reports \<and> e = Error ''Benchmark must run iteration function'' \<and>
      (\<exists>w2. fn w2 = Done w1))"
proof (intro conjI impI)
  assume d: "fn w = Done w'"
  show r: "run1 fn w = Inl (Error ''Benchmark must run iteration function'', w')"
    using d by (rule run1_Done)
  show wl: "warmup_loop fn limit warmupCount warmupTotal w
        = Some (Inl (Error ''Benchmark must run iteration function'', w'))" for limit warmupCount warmupTotal
    by (subst warmup_loop.simps) (simp add: r)
  show "sample_loop fn n i totalTime collected w
           = Some (Inl (Error ''Benchmark must run iteration function'', w'))"
    if "js_lt (Fin (of_nat i)) n"
    using that by (subst sample_loop.simps) (simp add: r)
  show "benchFancy arg fn (w, reports)
        = Some (Inl (Error ''Benchmark must run iteration function'', w', reports))"
    by (simp add: benchFancy_unfold wl)
next
  assume a: "benchFancy arg fn (w, reports) = Some (Inl (e, w1, reports'))"
  from benchFancy_Inl [OF a] show "reports' = reports" by simp
  from benchFancy_Inl [OF a] warmup_loop_raises sample_loop_raises
  obtain w2 where r: "run1 fn w2 = Inl (e, w1)" by blast
  then show "e = Error ''Benchmark must run iteration function''" by (rule run1_error)
  from r have "measured (fn w2) = [] \<and> w1 = final_world (fn w2)"
    by (simp add: run1_measured split: if_splits)
  then have "fn w2 = Done w1" by (cases "fn w2") simp_all
  then show "\<exists>w2. fn w2 = Done w1" ..
qed


text \<open>A run that fails during sampling: the workload stops measuring at its sixth trial.\<close>

lemma flaky_run:
  "benchFancy (Opts (opts0\<lparr>samples := Fin 3\<rparr>)) (measures_first 5) (\<lparr>clock = 0, heap = 0\<rparr>, Map.empty)
     = Some (Inl (Error ''Benchmark must run iteration function'', \<lparr>clock = 5, heap = 5\<rparr>, Map.empty))"
  by (simp add: benchFancy_unfold sample_count_def warmup_loop.simps sample_loop.simps run1_def
        tick_def measures_first_def opts0_def)

theorem unmeasured_workload_aborts_witness:
  "idle w0 = Done w0 \<and>
   run1 idle w0 = Inl (Error ''Benchmark must run iteration function'', w0) \<and>
   warmup_loop idle (Fin 3000) 0 0 w0 = Some (Inl (Error ''Benchmark must run iteration function'', w0)) \<and>
   js_lt (Fin (of_nat 0)) (Fin 100) \<and>
   sample_loop idle (Fin 100) 0 0 [] w0 = Some (Inl (Error ''Benchmark must run iteration function'', w0)) \<and>
   benchFancy (Name ''A'') idle (w0, Map.empty)
     = Some (Inl (Error ''Benchmark must run iteration function'', w0, Map.empty)) \<and>
   benchFancy (Opts (opts0\<lparr>samples := Fin 3\<rparr>)) (measures_first 5) (\<lparr>clock = 0, heap = 0\<rparr>, Map.empty)
     = Some (Inl (Error ''Benchmark must run iteration function'', \<lparr>clock = 5, heap = 5\<rparr>, Map.empty)) \<and>
   (\<exists>w2. measures_first 5 w2 = Done \<lparr>clock = 5, heap = 5\<rparr>)"
proof -
  have h1: "idle w0 = Done w0" by (simp add: idle_def)
  have h2: "js_lt (Fin (of_nat 0)) (Fin 100)" by simp
  note t1 = unmeasured_workload_aborts [where fn = idle and w = w0 and w' = w0 and limit = "Fin 3000"
      and warmupCount = 0 and warmupTotal = 0 and i = 0 and n = "Fin 100" and totalTime = 0
      and collected = "[]" and arg = "Name ''A''" and reports = Map.empty
      and e = "Error ''''" and ?w1.0 = w0 and reports' = Map.empty]
  note t2 = unmeasured_workload_aborts [where fn = "measures_first 5" and w = "\<lparr>clock = 0, heap = 0\<rparr>"
      and w' = "\<lparr>clock = 0, heap = 0\<rparr>" and limit = "Fin 0"
      and warmupCount = 0 and warmupTotal = 0 and i = 0 and n = "Fin 3" and totalTime = 0
      and collected = "[]"
      and arg = "Opts (opts0\<lparr>samples := Fin 3\<rparr>)" and reports = Map.empty
      and e = "Error ''Benchmark must run iteration function''" and ?w1.0 = "\<lparr>clock = 5, heap = 5\<rparr>"
      and reports' = Map.empty]
  from t1 h1 h2 have a:
    "run1 idle w0 = Inl (Error ''Benchmark must run iteration function'', w0) \<and>
     warmup_loop idle (Fin 3000) 0 0 w0 = Some (Inl (Error ''Benchmark must run iteration function'', w0)) \<and>
     sample_loop idle (Fin 100) 0 0 [] w0 = Some (Inl (Error ''Benchmark must run iteration function'', w0)) \<and>
     benchFancy (Name ''A'') idle (w0, Map.empty)
       = Some (Inl (Error ''Benchmark must run iteration function'', w0, Map.empty))"
    by blast
  from t2 flaky_run have b: "\<exists>w2. measures_first 5 w2 = Done \<lparr>clock = 5, heap = 5\<rparr>"
    by blast
  from h1 h2 a b flaky_run show ?thesis by blast
qed

lemma run1_plain: "run1 (\<lambda>w. Call w (Done (fn w)) Done) w = Inr (clock (fn w) - clock w, fn w)"
  by (simp add: run1_measured)

text \<open>
  C5. \<open>bench\<close> is \<open>benchFancy\<close> on the wrapper \<open>b => { b(fn) }\<close>: the two give the same
  result, store included, from every state. A trial of the wrapper measures the whole of
  \<open>fn\<close> and nothing else, and never fails, so \<open>bench\<close> throws nothing.
\<close>

theorem bench_is_benchFancy_of_wrapper:
  "bench arg fn s = benchFancy arg (\<lambda>w. Call w (Done (fn w)) Done) s \<and>
   run1 (\<lambda>w. Call w (Done (fn w)) Done) w = Inr (clock (fn w) - clock w, fn w) \<and>
   (\<forall>x. bench arg fn s \<noteq> Some (Inl x))"
proof (intro conjI allI)
  show "bench arg fn s = benchFancy arg (\<lambda>w. Call w (Done (fn w)) Done) s" by (simp add: bench_def)
  show "run1 (\<lambda>w. Call w (Done (fn w)) Done) w = Inr (clock (fn w) - clock w, fn w)" by (rule run1_plain)
  fix x
  show "bench arg fn s \<noteq> Some (Inl x)"
  proof
    assume a: "bench arg fn s = Some (Inl x)"
    obtain w reports where s: "s = (w, reports)" by (cases s)
    obtain e w' reports' where x: "x = (e, w', reports')" by (cases x)
    from a s x have "benchFancy arg (\<lambda>w. Call w (Done (fn w)) Done) (w, reports) = Some (Inl (e, w', reports'))"
      by (simp add: bench_def)
    from benchFancy_Inl [OF this] warmup_loop_raises sample_loop_raises
    obtain w2 where "run1 (\<lambda>w. Call w (Done (fn w)) Done) w2 = Inl (e, w')" by blast
    then show False by (simp add: run1_plain)
  qed
qed






section \<open>Properties of persistence and of the table\<close>

lemma read_object_simps:
  "fs f = ReadFails c \<Longrightarrow> read_object fs f = Inl (SystemError c)"
  "fs f = Unparsable \<Longrightarrow> read_object fs f = Inl SyntaxError"
  "fs f = Parsed JNull \<Longrightarrow> read_object fs f = Inl (Error ''Report file is not an object'')"
  "fs f = Parsed (JBool b) \<Longrightarrow> read_object fs f = Inl (Error ''Report file is not an object'')"
  "fs f = Parsed (JNumber q) \<Longrightarrow> read_object fs f = Inl (Error ''Report file is not an object'')"
  "fs f = Parsed (JString s) \<Longrightarrow> read_object fs f = Inl (Error ''Report file is not an object'')"
  "fs f = Parsed (JArray xs) \<Longrightarrow> read_object fs f = Inr (JArray xs)"
  "fs f = Parsed (JObject m) \<Longrightarrow> read_object fs f = Inr (JObject m)"
  by (simp_all add: read_object_def)

text \<open>
  C8. When the report file holds a mapping, \<open>saveReportsSync\<close> replaces the file by the
  union of that mapping and the store: a name in the store has the store's report, also
  when the file had one; any other name of the file keeps the file's report; the names
  are those of the two together. When there is no such file the store alone is written.
  Without an argument the file is \<open>report.json\<close>.
\<close>

theorem saveReportsSync_merges:
  "(fs f = Parsed (JObject onDisk) \<longrightarrow>
      saveReportsSync (Some f) (fs, reports) = Inr (fs(f := Parsed (JObject (onDisk ++ reports)))) \<and>
      (\<forall>k. (onDisk ++ reports) k = (case reports k of Some r \<Rightarrow> Some r | None \<Rightarrow> onDisk k)) \<and>
      dom (onDisk ++ reports) = dom onDisk \<union> dom reports) \<and>
   (fs f = ReadFails ''ENOENT'' \<longrightarrow>
      saveReportsSync (Some f) (fs, reports) = Inr (fs(f := Parsed (JObject reports)))) \<and>
   saveReportsSync None (fs, reports) = saveReportsSync (Some ''report.json'') (fs, reports)"
  by (auto simp add: saveReportsSync_def read_object_simps map_add_def split: option.splits)


theorem saveReportsSync_merges_witness:
  "files_A ''r.json'' = Parsed (JObject [''A'' \<mapsto> report_of 2, ''B'' \<mapsto> report_of 30]) \<and>
   saveReportsSync (Some ''r.json'') (files_A, mem_A)
     = Inr (files_A(''r.json'' := Parsed (JObject ([''A'' \<mapsto> report_of 2, ''B'' \<mapsto> report_of 30] ++ mem_A)))) \<and>
   ([''A'' \<mapsto> report_of 2, ''B'' \<mapsto> report_of 30] ++ mem_A) ''A'' = Some (report_of 1) \<and>
   ([''A'' \<mapsto> report_of 2, ''B'' \<mapsto> report_of 30] ++ mem_A) ''B'' = Some (report_of 30) \<and>
   no_files ''r.json'' = ReadFails ''ENOENT'' \<and>
   saveReportsSync (Some ''r.json'') (no_files, mem_A) = Inr (no_files(''r.json'' := Parsed (JObject mem_A)))"
proof -
  have h1: "files_A ''r.json'' = Parsed (JObject [''A'' \<mapsto> report_of 2, ''B'' \<mapsto> report_of 30])"
    by (simp add: files_A_def)
  have h2: "no_files ''r.json'' = ReadFails ''ENOENT''" by (simp add: no_files_def)
  note t1 = saveReportsSync_merges [where fs = files_A and f = "''r.json''" and reports = mem_A
      and onDisk = "[''A'' \<mapsto> report_of 2, ''B'' \<mapsto> report_of 30]"]
  note t2 = saveReportsSync_merges [where fs = no_files and f = "''r.json''" and reports = mem_A
      and onDisk = Map.empty]
  have a: "([''A'' \<mapsto> report_of 2, ''B'' \<mapsto> report_of 30] ++ mem_A) ''A'' = Some (report_of 1)"
    using t1 h1 by (simp add: mem_A_def)
  have b: "([''A'' \<mapsto> report_of 2, ''B'' \<mapsto> report_of 30] ++ mem_A) ''B'' = Some (report_of 30)"
    using t1 h1 by (simp add: mem_A_def)
  from t1 t2 h1 h2 a b show ?thesis by blast
qed


text \<open>
  C1, as the code has it. With a path, \<open>reportTable\<close> shows the union of the store and
  the mapping in the file in which the file takes precedence: a name in the file shows
  the rounded \<open>meanTime\<close> of the file's report, also when the store has one; a name of the
  store shows the store's report only when the file has none. Without a path it shows the
  store.
\<close>

theorem reportTable_disk_first:
  "(fs f = Parsed (JObject onDisk) \<longrightarrow>
      (\<exists>t. reportTable (Some f) (fs, reports) = Inr t \<and>
           (\<forall>k. t k = map_option (\<lambda>rep. \<lparr>mean = round_js (meanTime rep)\<rparr>)
                         (case onDisk k of Some d \<Rightarrow> Some d | None \<Rightarrow> reports k)))) \<and>
   (\<exists>t. reportTable None (fs, reports) = Inr t \<and>
        (\<forall>k. t k = map_option (\<lambda>rep. \<lparr>mean = round_js (meanTime rep)\<rparr>) (reports k)))"
  by (auto simp add: reportTable_def read_object_simps map_add_def split: option.splits)


theorem reportTable_disk_first_witness:
  "files_A ''r.json'' = Parsed (JObject [''A'' \<mapsto> report_of 2, ''B'' \<mapsto> report_of 30]) \<and>
   (\<exists>t. reportTable (Some ''r.json'') (files_A, mem_A) = Inr t \<and>
        t ''A'' = Some \<lparr>mean = round_js (meanTime (report_of 2))\<rparr> \<and>
        t ''B'' = Some \<lparr>mean = round_js (meanTime (report_of 30))\<rparr>) \<and>
   (\<exists>t. reportTable None (files_A, mem_A) = Inr t \<and>
        t ''A'' = Some \<lparr>mean = round_js (meanTime (report_of 1))\<rparr> \<and> t ''B'' = None)"
proof -
  have h1: "files_A ''r.json'' = Parsed (JObject [''A'' \<mapsto> report_of 2, ''B'' \<mapsto> report_of 30])"
    by (simp add: files_A_def)
  note t1 = reportTable_disk_first [where fs = files_A and f = "''r.json''" and reports = mem_A
      and onDisk = "[''A'' \<mapsto> report_of 2, ''B'' \<mapsto> report_of 30]"]
  from t1 h1 obtain t where
    t: "reportTable (Some ''r.json'') (files_A, mem_A) = Inr t"
       "\<forall>k. t k = map_option (\<lambda>rep. \<lparr>mean = round_js (meanTime rep)\<rparr>)
                         (case [''A'' \<mapsto> report_of 2, ''B'' \<mapsto> report_of 30] k of
                            Some d \<Rightarrow> Some d | None \<Rightarrow> mem_A k)"
    by blast
  from t1 obtain u where
    u: "reportTable None (files_A, mem_A) = Inr u"
       "\<forall>k. u k = map_option (\<lambda>rep. \<lparr>mean = round_js (meanTime rep)\<rparr>) (mem_A k)"
    by blast
  have "t ''A'' = Some \<lparr>mean = round_js (meanTime (report_of 2))\<rparr>"
       "t ''B'' = Some \<lparr>mean = round_js (meanTime (report_of 30))\<rparr>"
    using t(2) by simp_all
  moreover have "u ''A'' = Some \<lparr>mean = round_js (meanTime (report_of 1))\<rparr>" "u ''B'' = None"
    using u(2) by (simp_all add: mem_A_def)
  ultimately show ?thesis using h1 t(1) u(1) by blast
qed




text \<open>
  C1 as claimed, that the store takes precedence in the table, fails: with \<open>A\<close> in the store
  (mean \<open>1\<close>) and in the file (mean \<open>2\<close>), the table shows \<open>2\<close> for \<open>A\<close>.
\<close>

theorem reportTable_memory_first_counterexample:
  "files_A ''r.json'' = Parsed (JObject [''A'' \<mapsto> report_of 2, ''B'' \<mapsto> report_of 30]) \<and>
   mem_A ''A'' = Some (report_of 1) \<and>
   rendered (reportTable (Some ''r.json'') (files_A, mem_A)) ''A''
     = Some (round_js (meanTime (report_of 2))) \<and>
   rendered (reportTable (Some ''r.json'') (files_A, mem_A)) ''A''
     \<noteq> Some (round_js (meanTime (report_of 1)))"
  by (simp add: rendered_def reportTable_def read_object_def report_of_def round_js_1_2
        files_A_def mem_A_def no_files_def)


text \<open>
  C7, as the code has it. Only the absence of the file is taken for an empty state, and
  only by \<open>saveReportsSync\<close>. A read that fails otherwise, a text that does not parse, and
  a content that parses to \<open>null\<close>, a boolean, a number or a string make both
  \<open>saveReportsSync\<close> and \<open>reportTable\<close> throw, with the same error (the table throws on an
  absent file too).
\<close>

theorem non_object_content_is_fatal:
  "(fs f = ReadFails c \<and> c \<noteq> ''ENOENT'' \<longrightarrow>
      saveReportsSync (Some f) (fs, reports) = Inl (SystemError c) \<and>
      reportTable (Some f) (fs, reports) = Inl (SystemError c)) \<and>
   (fs f = Unparsable \<longrightarrow>
      saveReportsSync (Some f) (fs, reports) = Inl SyntaxError \<and>
      reportTable (Some f) (fs, reports) = Inl SyntaxError) \<and>
   (fs f = Parsed x \<and> (x = JNull \<or> x = JBool b \<or> x = JNumber q \<or> x = JString s) \<longrightarrow>
      saveReportsSync (Some f) (fs, reports) = Inl (Error ''Report file is not an object'') \<and>
      reportTable (Some f) (fs, reports) = Inl (Error ''Report file is not an object'')) \<and>
   (fs f = ReadFails ''ENOENT'' \<longrightarrow>
      saveReportsSync (Some f) (fs, reports) = Inr (fs(f := Parsed (JObject reports))) \<and>
      reportTable (Some f) (fs, reports) = Inl (SystemError ''ENOENT''))"
  by (auto simp add: saveReportsSync_def reportTable_def read_object_simps)


theorem non_object_content_is_fatal_witness:
  "(no_files(''r.json'' := ReadFails ''EACCES'')) ''r.json'' = ReadFails ''EACCES'' \<and>
   ''EACCES'' \<noteq> ''ENOENT'' \<and>
   saveReportsSync (Some ''r.json'') (no_files(''r.json'' := ReadFails ''EACCES''), mem_A)
     = Inl (SystemError ''EACCES'') \<and>
   reportTable (Some ''r.json'') (no_files(''r.json'' := ReadFails ''EACCES''), mem_A)
     = Inl (SystemError ''EACCES'') \<and>
   (no_files(''r.json'' := Unparsable)) ''r.json'' = Unparsable \<and>
   saveReportsSync (Some ''r.json'') (no_files(''r.json'' := Unparsable), mem_A) = Inl SyntaxError \<and>
   reportTable (Some ''r.json'') (no_files(''r.json'' := Unparsable), mem_A) = Inl SyntaxError \<and>
   (no_files(''r.json'' := Parsed (JString ''not an object''))) ''r.json''
     = Parsed (JString ''not an object'') \<and>
   saveReportsSync (Some ''r.json'') (no_files(''r.json'' := Parsed (JString ''not an object'')), mem_A)
     = Inl (Error ''Report file is not an object'') \<and>
   reportTable (Some ''r.json'') (no_files(''r.json'' := Parsed (JString ''not an object'')), mem_A)
     = Inl (Error ''Report file is not an object'') \<and>
   no_files ''r.json'' = ReadFails ''ENOENT'' \<and>
   saveReportsSync (Some ''r.json'') (no_files, mem_A)
     = Inr (no_files(''r.json'' := Parsed (JObject mem_A))) \<and>
   reportTable (Some ''r.json'') (no_files, mem_A) = Inl (SystemError ''ENOENT'')"
proof -
  have h1: "(no_files(''r.json'' := ReadFails ''EACCES'')) ''r.json'' = ReadFails ''EACCES''" by simp
  have h1': "''EACCES'' \<noteq> ''ENOENT''" by simp
  have h2: "(no_files(''r.json'' := Unparsable)) ''r.json'' = Unparsable" by simp
  have h3: "(no_files(''r.json'' := Parsed (JString ''not an object''))) ''r.json''
     = Parsed (JString ''not an object'')" by simp
  have h4: "no_files ''r.json'' = ReadFails ''ENOENT''" by (simp add: no_files_def)
  note t1 = non_object_content_is_fatal [where fs = "no_files(''r.json'' := ReadFails ''EACCES'')"
      and f = "''r.json''" and c = "''EACCES''" and reports = mem_A and x = JNull and b = True
      and q = 0 and s = "[]"]
  note t2 = non_object_content_is_fatal [where fs = "no_files(''r.json'' := Unparsable)"
      and f = "''r.json''" and c = "''EACCES''" and reports = mem_A and x = JNull and b = True
      and q = 0 and s = "[]"]
  note t3 = non_object_content_is_fatal [where fs = "no_files(''r.json'' := Parsed (JString ''not an object''))"
      and f = "''r.json''" and c = "''EACCES''" and reports = mem_A and x = "JString ''not an object''"
      and b = True and q = 0 and s = "''not an object''"]
  note t4 = non_object_content_is_fatal [where fs = no_files
      and f = "''r.json''" and c = "''EACCES''" and reports = mem_A and x = JNull and b = True
      and q = 0 and s = "[]"]
  from t1 h1 h1' have a: "saveReportsSync (Some ''r.json'') (no_files(''r.json'' := ReadFails ''EACCES''), mem_A)
     = Inl (SystemError ''EACCES'') \<and>
   reportTable (Some ''r.json'') (no_files(''r.json'' := ReadFails ''EACCES''), mem_A)
     = Inl (SystemError ''EACCES'')" by blast
  from t2 h2 have b: "saveReportsSync (Some ''r.json'') (no_files(''r.json'' := Unparsable), mem_A) = Inl SyntaxError \<and>
   reportTable (Some ''r.json'') (no_files(''r.json'' := Unparsable), mem_A) = Inl SyntaxError" by blast
  from t3 h3 have c: "saveReportsSync (Some ''r.json'') (no_files(''r.json'' := Parsed (JString ''not an object'')), mem_A)
     = Inl (Error ''Report file is not an object'') \<and>
   reportTable (Some ''r.json'') (no_files(''r.json'' := Parsed (JString ''not an object'')), mem_A)
     = Inl (Error ''Report file is not an object'')" by blast
  from t4 h4 have d: "saveReportsSync (Some ''r.json'') (no_files, mem_A)
     = Inr (no_files(''r.json'' := Parsed (JObject mem_A))) \<and>
   reportTable (Some ''r.json'') (no_files, mem_A) = Inl (SystemError ''ENOENT'')" by blast
  from h1 h1' h2 h3 h4 a b c d show ?thesis by blast
qed

text \<open>
  C7 as claimed, that every content other than a mapping from names to reports is fatal,
  fails: the guard is \<open>typeof x !== 'object' || x == null\<close>, which an array passes. A file
  holding \<open>[]\<close> is saved over and rendered exactly as an absent file is saved over and as
  the store alone is rendered.
\<close>

theorem array_content_counterexample:
  "files_array ''r.json'' = Parsed (JArray []) \<and>
   saveReportsSync (Some ''r.json'') (files_array, mem_A)
     = Inr (files_array(''r.json'' := Parsed (JObject mem_A))) \<and>
   saveReportsSync (Some ''r.json'') (no_files, mem_A)
     = Inr (no_files(''r.json'' := Parsed (JObject mem_A))) \<and>
   rendered (reportTable (Some ''r.json'') (files_array, mem_A)) ''A'' = Some (Fin 1)"
  by (simp add: saveReportsSync_def rendered_def reportTable_def read_object_def report_of_def
        round_js_1_2 files_array_def mem_A_def no_files_def)


section \<open>The earlier engine of src/index.ts, compared\<close>

text \<open>
  The earlier \<open>bench\<close> warms up on elapsed time alone (one trial is enough when
  \<open>warmupTime\<close> is \<open>0\<close>), derives the sample count by the same expression, and stores a
  report without sample times. The zero estimate gives it the sample count \<open>NaN\<close> as well.
\<close>

lemma bench_index_unfold:
  "bench_index arg fn (w, reports) =
     (case warmup_loop_index fn (warmupTime (resolve_opts arg)) (clock w) 0 w of
          None \<Rightarrow> None
        | Some (warmupCount, end0, w1) \<Rightarrow>
            (case sample_loop_index fn (sample_count (resolve_opts arg)
                     (js_div (Fin (end0 - clock w)) (Fin (of_nat warmupCount)))) 0 w1 of
                 None \<Rightarrow> None
               | Some w2 \<Rightarrow>
                   Some (w2,
                        case name (resolve_opts arg) of
                          None \<Rightarrow> reports
                        | Some s \<Rightarrow> reports(s \<mapsto>
                            \<lparr>meanTime_index = js_div (Fin (clock w2 - clock w1)) (sample_count (resolve_opts arg)
                     (js_div (Fin (end0 - clock w)) (Fin (of_nat warmupCount)))), options_index = resolve_opts arg\<rparr>))))"
  unfolding bench_index_def Let_def by simp

lemma bench_index_one_warmup_trial:
  "warmup_loop_index (tick 1) (warmupTime (resolve_opts (Opts opts0))) (clock w0) 0 w0
     = Some (1, 1, \<lparr>clock = 1, heap = ()\<rparr>)"
  by (simp add: warmup_loop_index.simps tick_def w0_def opts0_def)

lemma bench_index_example:
  "bench_index (Opts opts1) (tick 1) (w0, Map.empty)
     = Some (\<lparr>clock = 5, heap = ()\<rparr>, [''A'' \<mapsto> \<lparr>meanTime_index = Fin 1, options_index = opts1\<rparr>])"
  by (simp add: bench_index_unfold sample_count_def warmup_loop_index.simps sample_loop_index.simps
        tick_def w0_def opts1_def)

lemma bench_index_zero_estimate:
  "bench_index (Opts opts0) (tick 0) (w0, Map.empty)
     = Some (w0, [''A'' \<mapsto> \<lparr>meanTime_index = NaN, options_index = opts0\<rparr>])"
  by (simp add: bench_index_unfold sample_count_def warmup_loop_index.simps sample_loop_index.simps
        tick_def w0_def opts0_def)

end
